theory Spec2Isabelle
  imports Main
begin

section \<open>Text preprocessing: tokenizer, vocabulary and corpus loader\<close>

text \<open>
  A shallow embedding of \<^verbatim>\<open>chapter_recurrent-neural-networks/text-preprocessing.ipynb\<close>:
  \<^verbatim>\<open>read_time_machine\<close>, \<^verbatim>\<open>tokenize\<close>, the class \<^verbatim>\<open>Vocab\<close>, \<^verbatim>\<open>count_corpus\<close> and
  \<^verbatim>\<open>load_corpus_time_machine\<close>.
\<close>

subsection \<open>Python strings\<close>

text \<open>
  A Python \<^verbatim>\<open>str\<close> is a sequence of Unicode code points, and \<^verbatim>\<open>len\<close>, \<^verbatim>\<open>list\<close> and
  indexing count code points. A string is therefore a list of code points; \<open>ascii\<close> writes
  an ASCII literal of the source.
\<close>

type_synonym codepoint = nat
type_synonym str = "codepoint list"

definition ascii :: "string \<Rightarrow> str" where
  "ascii s = map of_char s"

text \<open>\<^verbatim>\<open>str.isspace\<close> for one character (the white-space code points of CPython).\<close>

definition isspace :: "codepoint \<Rightarrow> bool" where
  "isspace c \<longleftrightarrow>
     (9 \<le> c \<and> c \<le> 13) \<or> (28 \<le> c \<and> c \<le> 32) \<or> c = 133 \<or> c = 160 \<or> c = 5760 \<or>
     (8192 \<le> c \<and> c \<le> 8202) \<or> c = 8232 \<or> c = 8233 \<or> c = 8239 \<or> c = 8287 \<or> c = 12288"

text \<open>The character class \<^verbatim>\<open>[A-Za-z]\<close>.\<close>

definition is_letter :: "codepoint \<Rightarrow> bool" where
  "is_letter c \<longleftrightarrow> (65 \<le> c \<and> c \<le> 90) \<or> (97 \<le> c \<and> c \<le> 122)"

text \<open>
  \<^verbatim>\<open>re.sub('[^A-Za-z]+', ' ', line)\<close>: every maximal run of characters outside the class
  becomes one space.
\<close>

fun re_sub_non_letters :: "bool \<Rightarrow> str \<Rightarrow> str" where
  "re_sub_non_letters in_run [] = []"
| "re_sub_non_letters in_run (c # cs) =
     (if is_letter c then c # re_sub_non_letters False cs
      else if in_run then re_sub_non_letters True cs
      else 32 # re_sub_non_letters True cs)"

text \<open>\<^verbatim>\<open>str.strip()\<close>: leading and trailing white space removed.\<close>

definition strip :: "str \<Rightarrow> str" where
  "strip s = rev (dropWhile isspace (rev (dropWhile isspace s)))"

text \<open>
  \<^verbatim>\<open>str.lower()\<close>, on the strings it is applied to here: after the substitution and the
  strip a line holds only letters of \<^verbatim>\<open>[A-Za-z]\<close> and spaces.
\<close>

definition lower :: "str \<Rightarrow> str" where
  "lower s = map (\<lambda>c. if 65 \<le> c \<and> c \<le> 90 then c + 32 else c) s"

text \<open>
  \<^verbatim>\<open>str.split()\<close> without arguments: the maximal runs of characters that are not white
  space, in order; \<open>cur\<close> is the token being read.
\<close>

fun split_from :: "str \<Rightarrow> str \<Rightarrow> str list" where
  "split_from cur [] = (if cur = [] then [] else [cur])"
| "split_from cur (c # cs) =
     (if isspace c then (if cur = [] then split_from [] cs else cur # split_from [] cs)
      else split_from (cur @ [c]) cs)"

definition split :: "str \<Rightarrow> str list" where
  "split s = split_from [] s"

text \<open>\<^verbatim>\<open>list(line)\<close>: the one-character strings of a line.\<close>

definition list_of_str :: "str \<Rightarrow> str list" where
  "list_of_str line = map (\<lambda>c. [c]) line"

subsection \<open>Reading the data set\<close>

text \<open>
  \<^verbatim>\<open>read_time_machine\<close> opens the downloaded file and normalises each of its lines. The
  download and the file system are outside the program: the lines that \<^verbatim>\<open>f.readlines()\<close>
  returns are the argument \<open>raw_lines\<close>.
\<close>

definition read_time_machine :: "str list \<Rightarrow> str list" where
  "read_time_machine raw_lines = map (\<lambda>line. lower (strip (re_sub_non_letters False line))) raw_lines"

subsection \<open>Tokenization\<close>

text \<open>
  The ten characters that the source prints before an unknown token type (a Chinese text
  that reads ``error: unknown token type:''), as code points.
\<close>

definition unknown_token_type_msg :: str where
  "unknown_token_type_msg = [38169, 35823, 65306, 26410, 30693, 35789, 20803, 31867, 22411, 65306]"

text \<open>
  \<^verbatim>\<open>tokenize(lines, token)\<close>. The result is the pair of what the call prints (one entry
  for each \<^verbatim>\<open>print\<close>) and what it returns; the last branch has no \<^verbatim>\<open>return\<close>, so the
  call returns Python's \<^verbatim>\<open>None\<close> there, which is \<open>None\<close> here.
\<close>

definition tokenize :: "str list \<Rightarrow> str \<Rightarrow> str list \<times> str list list option" where
  "tokenize lines token =
     (if token = ascii ''word'' then ([], Some (map split lines))
      else if token = ascii ''char'' then ([], Some (map list_of_str lines))
      else ([unknown_token_type_msg @ token], None))"

subsection \<open>Counting tokens\<close>

text \<open>
  \<^verbatim>\<open>collections.Counter(tokens)\<close> is a dictionary from each element to its number of
  occurrences; its \<^verbatim>\<open>items()\<close> come in the order of first occurrence. It is an association
  list in that order; \<open>counter_add\<close> is the update \<^verbatim>\<open>c[x] = c.get(x, 0) + 1\<close>.
\<close>

fun counter_add :: "('a \<times> int) list \<Rightarrow> 'a \<Rightarrow> ('a \<times> int) list" where
  "counter_add [] x = [(x, 1)]"
| "counter_add ((k, c) # kcs) x =
     (if k = x then (k, c + 1) # kcs else (k, c) # counter_add kcs x)"

definition Counter :: "'a list \<Rightarrow> ('a \<times> int) list" where
  "Counter xs = fold (\<lambda>x c. counter_add c x) xs []"

text \<open>
  The argument \<^verbatim>\<open>tokens\<close> is a 1D list of tokens or a 2D list (a list of token lists),
  as the source's comment says.
\<close>

datatype tokens_arg = Tokens1D "str list" | Tokens2D "str list list"

text \<open>
  \<^verbatim>\<open>count_corpus\<close>: the list is flattened when it is empty or when its first element is
  a list. Flattening the empty list gives the empty list.
\<close>

fun count_corpus :: "tokens_arg \<Rightarrow> (str \<times> int) list" where
  "count_corpus (Tokens1D tokens) =
     (if length tokens = 0 then Counter (concat (map list_of_str tokens)) else Counter tokens)"
| "count_corpus (Tokens2D tokens) = Counter (concat tokens)"

subsection \<open>The vocabulary\<close>

record vocab =
  idx_to_token :: "str list"
  token_to_idx :: "str \<rightharpoonup> int"
  token_freqs :: "(str \<times> int) list"

definition unk_token :: str where
  "unk_token = ascii ''<unk>''"

text \<open>The dictionary comprehension \<^verbatim>\<open>{token: idx for idx, token in enumerate(xs)}\<close>: a later
  entry for the same token overwrites the earlier one.\<close>

definition dict_of_enumerate :: "str list \<Rightarrow> (str \<rightharpoonup> int)" where
  "dict_of_enumerate xs = fold (\<lambda>(idx, token) d. d(token \<mapsto> int idx)) (enumerate 0 xs) Map.empty"

text \<open>
  The loop of \<^verbatim>\<open>Vocab.__init__\<close> over \<^verbatim>\<open>self._token_freqs\<close>; the state is the pair of
  \<^verbatim>\<open>idx_to_token\<close> and \<^verbatim>\<open>token_to_idx\<close>. \<^verbatim>\<open>break\<close> ends the loop with the state as it is.
\<close>

fun assign_loop :: "int \<Rightarrow> (str \<times> int) list \<Rightarrow> str list \<times> (str \<rightharpoonup> int) \<Rightarrow> str list \<times> (str \<rightharpoonup> int)" where
  "assign_loop min_freq [] (i2t, t2i) = (i2t, t2i)"
| "assign_loop min_freq ((token, freq) # rest) (i2t, t2i) =
     (if freq < min_freq then (i2t, t2i)
      else if t2i token = None then
        assign_loop min_freq rest (i2t @ [token], t2i(token \<mapsto> int (length (i2t @ [token])) - 1))
      else assign_loop min_freq rest (i2t, t2i))"

text \<open>
  \<^verbatim>\<open>Vocab.__init__(tokens=None, min_freq=0, reserved_tokens=None)\<close>. An argument left at
  \<^verbatim>\<open>None\<close> is \<open>None\<close>. \<^verbatim>\<open>sorted(counter.items(), key=lambda x: x[1], reverse=True)\<close> is the
  stable sort by descending count: entries of equal count keep their order.
\<close>

definition Vocab_init :: "tokens_arg option \<Rightarrow> int \<Rightarrow> str list option \<Rightarrow> vocab" where
  "Vocab_init tokens min_freq reserved_tokens =
     (let tokens = (case tokens of None \<Rightarrow> Tokens1D [] | Some ts \<Rightarrow> ts);
          reserved_tokens = (case reserved_tokens of None \<Rightarrow> [] | Some rs \<Rightarrow> rs);
          counter = count_corpus tokens;
          freqs = sort_key (\<lambda>x. - snd x) counter;
          i2t = unk_token # reserved_tokens;
          t2i = dict_of_enumerate i2t;
          (i2t, t2i) = assign_loop min_freq freqs (i2t, t2i)
      in \<lparr>idx_to_token = i2t, token_to_idx = t2i, token_freqs = freqs\<rparr>)"

text \<open>\<^verbatim>\<open>Vocab.__len__\<close>.\<close>

definition Vocab_len :: "vocab \<Rightarrow> nat" where
  "Vocab_len v = length (idx_to_token v)"

text \<open>The property \<^verbatim>\<open>Vocab.unk\<close>.\<close>

definition Vocab_unk :: "vocab \<Rightarrow> int" where
  "Vocab_unk v = 0"

text \<open>
  \<^verbatim>\<open>Vocab.__getitem__\<close> takes one token, or a list or tuple whose elements are looked up
  by the same method; \<open>getitem_token\<close> is its first branch, \<^verbatim>\<open>token_to_idx.get(tokens, unk)\<close>.
\<close>

datatype tokens_key = Tok str | Toks "tokens_key list"

datatype indices_value = Idx int | Idxs "indices_value list"

definition getitem_token :: "vocab \<Rightarrow> str \<Rightarrow> int" where
  "getitem_token v token = (case token_to_idx v token of Some idx \<Rightarrow> idx | None \<Rightarrow> Vocab_unk v)"

fun Vocab_getitem :: "vocab \<Rightarrow> tokens_key \<Rightarrow> indices_value" where
  "Vocab_getitem v (Tok token) = Idx (getitem_token v token)"
| "Vocab_getitem v (Toks tokens) = Idxs (map (Vocab_getitem v) tokens)"

text \<open>
  Indexing a Python list, \<^verbatim>\<open>xs[i]\<close>: an index from \<open>- len\<close> to \<open>-1\<close> counts from the end,
  and an index outside \<open>- len .. len - 1\<close> raises \<^verbatim>\<open>IndexError\<close>.
\<close>

datatype error = IndexError | TypeError

definition list_getitem :: "'a list \<Rightarrow> int \<Rightarrow> error + 'a" where
  "list_getitem xs i =
     (let n = int (length xs); j = (if i < 0 then i + n else i)
      in if 0 \<le> j \<and> j < n then Inr (xs ! nat j) else Inl IndexError)"

text \<open>
  \<^verbatim>\<open>Vocab.to_tokens\<close> takes one index, or a list or tuple of indices; the list
  comprehension stops at the first index that raises.
\<close>

datatype indices_key = Index int | Indices "int list"

datatype tokens_value = Token str | Tokens "str list"

fun getitem_all :: "'a list \<Rightarrow> int list \<Rightarrow> error + 'a list" where
  "getitem_all xs [] = Inr []"
| "getitem_all xs (i # is) =
     (case list_getitem xs i of
        Inl e \<Rightarrow> Inl e
      | Inr x \<Rightarrow> (case getitem_all xs is of Inl e \<Rightarrow> Inl e | Inr ys \<Rightarrow> Inr (x # ys)))"

fun Vocab_to_tokens :: "vocab \<Rightarrow> indices_key \<Rightarrow> error + tokens_value" where
  "Vocab_to_tokens v (Index i) =
     (case list_getitem (idx_to_token v) i of Inl e \<Rightarrow> Inl e | Inr t \<Rightarrow> Inr (Token t))"
| "Vocab_to_tokens v (Indices is) =
     (case getitem_all (idx_to_token v) is of Inl e \<Rightarrow> Inl e | Inr ts \<Rightarrow> Inr (Tokens ts))"

subsection \<open>The corpus\<close>

text \<open>
  \<^verbatim>\<open>load_corpus_time_machine(max_tokens=-1)\<close>, on the lines of the file. Iterating over
  \<^verbatim>\<open>None\<close> raises \<^verbatim>\<open>TypeError\<close>; \<^verbatim>\<open>corpus[:max_tokens]\<close> with a positive bound keeps the
  first \<open>max_tokens\<close> entries.
\<close>

definition load_corpus_time_machine :: "str list \<Rightarrow> int \<Rightarrow> error + (int list \<times> vocab)" where
  "load_corpus_time_machine raw_lines max_tokens =
     (let lines = read_time_machine raw_lines;
          tokens = snd (tokenize lines (ascii ''char''));
          vocab = Vocab_init (map_option Tokens2D tokens) 0 None
      in case tokens of
           None \<Rightarrow> Inl TypeError
         | Some tokens \<Rightarrow>
             (let corpus = map (getitem_token vocab) (concat tokens);
                  corpus = (if max_tokens > 0 then take (nat max_tokens) corpus else corpus)
              in Inr (corpus, vocab)))"

subsection \<open>Notions used to state the properties\<close>

text \<open>
  The tokens that a \<^verbatim>\<open>tokens\<close> argument holds, in reading order, and the list that a
  \<^verbatim>\<open>reserved_tokens\<close> argument stands for.
\<close>

fun flatten_tokens :: "tokens_arg option \<Rightarrow> str list" where
  "flatten_tokens None = []"
| "flatten_tokens (Some (Tokens1D tokens)) = tokens"
| "flatten_tokens (Some (Tokens2D tokens)) = concat tokens"

fun reserved_list :: "str list option \<Rightarrow> str list" where
  "reserved_list None = []"
| "reserved_list (Some rs) = rs"

text \<open>The frequency of a token in a token collection.\<close>

definition freq :: "str list \<Rightarrow> str \<Rightarrow> int" where
  "freq toks t = int (count_list toks t)"

text \<open>The distinct tokens of a collection whose frequency is at least \<open>min_freq\<close>.\<close>

definition frequent_tokens :: "str list \<Rightarrow> int \<Rightarrow> str list" where
  "frequent_tokens toks min_freq = filter (\<lambda>t. min_freq \<le> freq toks t) (remdups toks)"

text \<open>Those of them that are neither the unknown marker nor a reserved token.\<close>

definition new_frequent_tokens :: "str list \<Rightarrow> int \<Rightarrow> str list \<Rightarrow> str list" where
  "new_frequent_tokens toks min_freq reserved =
     filter (\<lambda>t. t \<notin> set (unk_token # reserved)) (frequent_tokens toks min_freq)"

text \<open>
  The tokens of a frequency list before its first entry below \<open>min_freq\<close>: those that
  the loop of the constructor reaches before its \<^verbatim>\<open>break\<close>.
\<close>

definition ranked_tokens :: "(str \<times> int) list \<Rightarrow> int \<Rightarrow> str list" where
  "ranked_tokens freqs min_freq = map fst (takeWhile (\<lambda>p. \<not> snd p < min_freq) freqs)"

text \<open>The count that a counter holds for an element, \<^verbatim>\<open>c[x]\<close>.\<close>

definition counter_get :: "('a \<times> int) list \<Rightarrow> 'a \<Rightarrow> int" where
  "counter_get m t = (case map_of m t of None \<Rightarrow> 0 | Some c \<Rightarrow> c)"

text \<open>
  The relation between \<^verbatim>\<open>idx_to_token\<close> and \<^verbatim>\<open>token_to_idx\<close> that the constructor
  keeps: the dictionary's keys are the listed tokens, and each key is mapped to a position
  at which the list holds it.
\<close>

definition vocab_inv :: "str list \<Rightarrow> (str \<rightharpoonup> int) \<Rightarrow> bool" where
  "vocab_inv i2t t2i \<longleftrightarrow>
     dom t2i = set i2t \<and>
     (\<forall>t i. t2i t = Some i \<longrightarrow> 0 \<le> i \<and> i < int (length i2t) \<and> i2t ! nat i = t)"

section \<open>Properties\<close>

subsection \<open>The counter\<close>

lemma counter_get_add:
  "counter_get (counter_add m x) t = counter_get m t + (if t = x then 1 else 0)"
  by (induction m x rule: counter_add.induct) (auto simp: counter_get_def)

lemma keys_counter_add:
  "map fst (counter_add m x) = (if x \<in> set (map fst m) then map fst m else map fst m @ [x])"
  by (induction m x rule: counter_add.induct) auto

lemma set_keys_counter_add: "fst ` set (counter_add m x) = insert x (fst ` set m)"
  using arg_cong[OF keys_counter_add[of m x], of set]
  by (auto simp del: set_map simp add: set_map[symmetric])

lemma keys_fold_counter_add:
  "fst ` set (fold (\<lambda>x c. counter_add c x) xs m) = fst ` set m \<union> set xs"
  by (induction xs arbitrary: m) (simp_all add: set_keys_counter_add)

lemma distinct_fold_counter_add:
  "distinct (map fst m) \<Longrightarrow> distinct (map fst (fold (\<lambda>x c. counter_add c x) xs m))"
  by (induction xs arbitrary: m) (simp_all add: keys_counter_add)

lemma counter_get_fold:
  "counter_get (fold (\<lambda>x c. counter_add c x) xs m) t = counter_get m t + int (count_list xs t)"
  by (induction xs arbitrary: m) (simp_all add: counter_get_add)

lemma distinct_Counter: "distinct (map fst (Counter xs))"
  by (simp add: Counter_def distinct_fold_counter_add)

lemma keys_Counter: "fst ` set (Counter xs) = set xs"
  by (simp add: Counter_def keys_fold_counter_add)

lemma counter_get_Counter: "counter_get (Counter xs) t = int (count_list xs t)"
  using counter_get_fold[of xs "[]" t] by (simp add: Counter_def counter_get_def)

lemma in_Counter_iff:
  "(t, f) \<in> set (Counter xs) \<longleftrightarrow> t \<in> set xs \<and> f = freq xs t"
proof
  assume a: "(t, f) \<in> set (Counter xs)"
  then have "map_of (Counter xs) t = Some f"
    using distinct_Counter[of xs] by simp
  then have "counter_get (Counter xs) t = f"
    by (simp add: counter_get_def)
  moreover have "t \<in> fst ` set (Counter xs)"
    using a by force
  ultimately show "t \<in> set xs \<and> f = freq xs t"
    by (simp add: counter_get_Counter keys_Counter freq_def)
next
  assume a: "t \<in> set xs \<and> f = freq xs t"
  then have "t \<in> fst ` set (Counter xs)"
    by (simp add: keys_Counter)
  then obtain g where g: "(t, g) \<in> set (Counter xs)"
    by auto
  then have "map_of (Counter xs) t = Some g"
    using distinct_Counter[of xs] by simp
  then have "counter_get (Counter xs) t = g"
    by (simp add: counter_get_def)
  then show "(t, f) \<in> set (Counter xs)"
    using a g by (simp add: counter_get_Counter freq_def)
qed

lemma count_corpus_flatten:
  "count_corpus (case tokens of None \<Rightarrow> Tokens1D [] | Some ts \<Rightarrow> ts) = Counter (flatten_tokens tokens)"
proof (cases tokens)
  case None
  then show ?thesis by simp
next
  case (Some ts)
  then show ?thesis by (cases ts) auto
qed

subsection \<open>Sorting by frequency, and the loop of the constructor\<close>

lemma takeWhile_filter_desc:
  "sorted (map (\<lambda>x. - snd x) (tf :: ('a \<times> int) list)) \<Longrightarrow>
   takeWhile (\<lambda>p. \<not> snd p < m) tf = filter (\<lambda>p. \<not> snd p < m) tf"
proof (induction tf)
  case Nil
  show ?case by simp
next
  case (Cons p tf)
  show ?case
  proof (cases "snd p < m")
    case True
    have "\<forall>q \<in> set tf. snd q < m"
      using Cons.prems True by auto
    then have "filter (\<lambda>p. \<not> snd p < m) tf = []"
      by (simp add: filter_empty_conv)
    with True show ?thesis by simp
  next
    case False
    with Cons show ?thesis by simp
  qed
qed

lemma distinct_keys_sort_key:
  assumes "distinct (map fst xs)"
  shows "distinct (map fst (sort_key f xs))"
proof -
  have "card (set (map fst (sort_key f xs))) = card (set (map fst xs))"
    by simp
  also have "\<dots> = length (map fst xs)"
    using assms by (rule distinct_card)
  also have "\<dots> = length (map fst (sort_key f xs))"
    by simp
  finally show ?thesis
    by (rule card_distinct)
qed

lemma sorted_wrt_desc:
  "sorted (map (\<lambda>x. - snd x) (tf :: ('a \<times> int) list)) \<Longrightarrow> sorted_wrt (\<lambda>p q. snd q \<le> snd p) tf"
  by (induction tf) auto

lemma assign_loop_idx_to_token:
  "distinct (map fst tf) \<Longrightarrow>
   fst (assign_loop m tf (i2t, t2i)) =
     i2t @ filter (\<lambda>t. t2i t = None) (map fst (takeWhile (\<lambda>p. \<not> snd p < m) tf))"
proof (induction tf arbitrary: i2t t2i)
  case Nil
  show ?case by simp
next
  case (Cons p tf)
  obtain token f where p: "p = (token, f)" by (cases p)
  have d: "distinct (map fst tf)" and notin: "token \<notin> set (map fst tf)"
    using Cons.prems p by simp_all
  show ?case
  proof (cases "f < m")
    case True
    then show ?thesis by (simp add: p)
  next
    case False
    show ?thesis
    proof (cases "t2i token")
      case (Some i)
      then show ?thesis
        using False Cons.IH[OF d] by (simp add: p)
    next
      case None
      have "((t2i(token \<mapsto> k)) t = None) = (t2i t = None)"
        if h: "t \<in> set (map fst (takeWhile (\<lambda>p. \<not> snd p < m) tf))" for t k
      proof -
        obtain q where q: "q \<in> set (takeWhile (\<lambda>p. \<not> snd p < m) tf)" "t = fst q"
          using h by auto
        have "q \<in> set tf"
          using q(1) by (rule set_takeWhileD[THEN conjunct1])
        then have "t \<in> set (map fst tf)"
          using q(2) by simp
        then have "t \<noteq> token" using notin by auto
        then show ?thesis by simp
      qed
      then have "filter (\<lambda>t. (t2i(token \<mapsto> k)) t = None) (map fst (takeWhile (\<lambda>p. \<not> snd p < m) tf))
          = filter (\<lambda>t. t2i t = None) (map fst (takeWhile (\<lambda>p. \<not> snd p < m) tf))" for k
        using filter_cong[of "map fst (takeWhile (\<lambda>p. \<not> snd p < m) tf)" _
            "\<lambda>t. (t2i(token \<mapsto> k)) t = None" "\<lambda>t. t2i t = None"]
        by blast
      then show ?thesis
        using False None Cons.IH[OF d] by (simp add: p)
    qed
  qed
qed

lemma vocab_inv_append:
  assumes "vocab_inv i2t t2i"
  shows "vocab_inv (i2t @ [t]) (t2i(t \<mapsto> int (length i2t)))"
  unfolding vocab_inv_def
proof (intro conjI allI impI)
  show "dom (t2i(t \<mapsto> int (length i2t))) = set (i2t @ [t])"
    using assms by (auto simp: vocab_inv_def)
next
  fix u i assume a: "(t2i(t \<mapsto> int (length i2t))) u = Some i"
  show "0 \<le> i"
    using a assms by (auto simp: vocab_inv_def split: if_splits)
  show "i < int (length (i2t @ [t]))"
    using a assms by (fastforce simp: vocab_inv_def split: if_splits)
  show "(i2t @ [t]) ! nat i = u"
  proof (cases "u = t")
    case True
    then have "i = int (length i2t)" using a by simp
    then show ?thesis using True by simp
  next
    case False
    then have "t2i u = Some i" using a by simp
    then have b: "0 \<le> i \<and> i < int (length i2t) \<and> i2t ! nat i = u"
      using assms by (simp add: vocab_inv_def)
    then have "nat i < length i2t" by linarith
    then show ?thesis using b by (simp add: nth_append)
  qed
qed

lemma vocab_inv_dict_of_enumerate: "vocab_inv xs (dict_of_enumerate xs)"
proof (induction xs rule: rev_induct)
  case Nil
  show ?case by (simp add: vocab_inv_def dict_of_enumerate_def)
next
  case (snoc x xs)
  have "dict_of_enumerate (xs @ [x]) = (dict_of_enumerate xs)(x \<mapsto> int (length xs))"
    by (simp add: dict_of_enumerate_def enumerate_append_eq)
  then show ?case
    using vocab_inv_append[OF snoc.IH, of x] by (simp only:)
qed

lemma vocab_inv_assign_loop:
  "vocab_inv i2t t2i \<Longrightarrow>
   vocab_inv (fst (assign_loop m tf (i2t, t2i))) (snd (assign_loop m tf (i2t, t2i)))"
proof (induction tf arbitrary: i2t t2i)
  case Nil
  then show ?case by simp
next
  case (Cons p tf)
  obtain token f where p: "p = (token, f)" by (cases p)
  have k: "int (length (i2t @ [token])) - 1 = int (length i2t)"
    by simp
  show ?case
  proof (cases "f < m")
    case True
    then show ?thesis using Cons.prems by (simp add: p)
  next
    case False
    show ?thesis
    proof (cases "t2i token")
      case None
      show ?thesis
        using False None Cons.IH[OF vocab_inv_append[OF Cons.prems, of token]]
        by (simp only: p assign_loop.simps k if_True if_False refl)
    next
      case (Some i)
      then show ?thesis
        using False Cons.IH[OF Cons.prems] by (simp add: p)
    qed
  qed
qed

lemma vocab_inv_inverse:
  assumes "vocab_inv i2t t2i" and "distinct i2t" and "i < length i2t"
  shows "t2i (i2t ! i) = Some (int i)"
proof -
  have "i2t ! i \<in> dom t2i"
    using assms by (simp add: vocab_inv_def)
  then obtain j where j: "t2i (i2t ! i) = Some j"
    by auto
  then have "0 \<le> j \<and> j < int (length i2t) \<and> i2t ! nat j = i2t ! i"
    using assms(1) by (simp add: vocab_inv_def)
  then have b: "0 \<le> j" "nat j < length i2t" "i2t ! nat j = i2t ! i"
    by auto
  have "nat j = i"
    using nth_eq_iff_index_eq[OF assms(2) b(2) assms(3)] b(3) by simp
  then show ?thesis using j b(1) by auto
qed

subsection \<open>What the constructor builds\<close>

lemma Vocab_init_unfold:
  "Vocab_init tokens m reserved =
     \<lparr>idx_to_token = fst (assign_loop m (sort_key (\<lambda>x. - snd x) (Counter (flatten_tokens tokens)))
         (unk_token # reserved_list reserved, dict_of_enumerate (unk_token # reserved_list reserved))),
      token_to_idx = snd (assign_loop m (sort_key (\<lambda>x. - snd x) (Counter (flatten_tokens tokens)))
         (unk_token # reserved_list reserved, dict_of_enumerate (unk_token # reserved_list reserved))),
      token_freqs = sort_key (\<lambda>x. - snd x) (Counter (flatten_tokens tokens))\<rparr>"
proof -
  have r: "(case reserved of None \<Rightarrow> [] | Some rs \<Rightarrow> rs) = reserved_list reserved"
    by (cases reserved) simp_all
  show ?thesis
    unfolding Vocab_init_def Let_def count_corpus_flatten r
    by (simp add: case_prod_beta)
qed

lemma token_freqs_Vocab_init:
  "token_freqs (Vocab_init tokens m reserved) = sort_key (\<lambda>x. - snd x) (Counter (flatten_tokens tokens))"
  by (simp add: Vocab_init_unfold)

lemma sorted_token_freqs:
  "sorted (map (\<lambda>x. - snd x) (token_freqs (Vocab_init tokens m reserved)))"
  by (simp add: token_freqs_Vocab_init)

lemma distinct_token_freqs:
  "distinct (map fst (token_freqs (Vocab_init tokens m reserved)))"
  by (simp only: token_freqs_Vocab_init distinct_keys_sort_key[OF distinct_Counter])

lemma in_token_freqs_iff:
  "(t, f) \<in> set (token_freqs (Vocab_init tokens m reserved)) \<longleftrightarrow>
     t \<in> set (flatten_tokens tokens) \<and> f = freq (flatten_tokens tokens) t"
  by (simp add: token_freqs_Vocab_init in_Counter_iff)

lemma vocab_inv_Vocab_init:
  "vocab_inv (idx_to_token (Vocab_init tokens m reserved)) (token_to_idx (Vocab_init tokens m reserved))"
  by (simp add: Vocab_init_unfold vocab_inv_assign_loop[OF vocab_inv_dict_of_enumerate])

lemma dom_dict_of_enumerate: "dict_of_enumerate xs t = None \<longleftrightarrow> t \<notin> set xs"
  using vocab_inv_dict_of_enumerate[of xs] by (auto simp: vocab_inv_def)

lemma idx_to_token_Vocab_init:
  "idx_to_token (Vocab_init tokens m reserved) =
     unk_token # reserved_list reserved @
     filter (\<lambda>t. t \<notin> set (unk_token # reserved_list reserved))
       (map fst (takeWhile (\<lambda>p. \<not> snd p < m) (token_freqs (Vocab_init tokens m reserved))))"
proof -
  have d: "distinct (map fst (sort_key (\<lambda>x. - snd x) (Counter (flatten_tokens tokens))))"
    by (rule distinct_keys_sort_key[OF distinct_Counter])
  show ?thesis
    unfolding token_freqs_Vocab_init
    by (simp add: Vocab_init_unfold assign_loop_idx_to_token[OF d] dom_dict_of_enumerate)
qed

text \<open>The ranked tokens at or above the threshold.\<close>

lemma set_ranked:
  "set (map fst (takeWhile (\<lambda>p. \<not> snd p < m) (token_freqs (Vocab_init tokens m reserved)))) =
     {t \<in> set (flatten_tokens tokens). m \<le> freq (flatten_tokens tokens) t}"
proof -
  have "set (map fst (filter (\<lambda>p. \<not> snd p < m) (token_freqs (Vocab_init tokens m reserved)))) =
     {t \<in> set (flatten_tokens tokens). m \<le> freq (flatten_tokens tokens) t}"
    using in_token_freqs_iff[of _ _ tokens m reserved] by (auto simp: image_iff)
  then show ?thesis
    by (simp only: takeWhile_filter_desc[OF sorted_token_freqs])
qed

lemma distinct_ranked:
  "distinct (map fst (takeWhile (\<lambda>p. \<not> snd p < m) (token_freqs (Vocab_init tokens m reserved))))"
  unfolding takeWhile_filter_desc[OF sorted_token_freqs]
  using distinct_token_freqs[of tokens m reserved] by (rule distinct_map_filter)

lemma set_frequent_tokens:
  "set (frequent_tokens toks m) = {t \<in> set toks. m \<le> freq toks t}"
  by (auto simp: frequent_tokens_def)

lemma distinct_frequent_tokens: "distinct (frequent_tokens toks m)"
  by (simp add: frequent_tokens_def)

lemma length_new_ranked:
  "length (filter (\<lambda>t. t \<notin> set (unk_token # rs))
       (map fst (takeWhile (\<lambda>p. \<not> snd p < m) (token_freqs (Vocab_init tokens m reserved))))) =
   length (new_frequent_tokens (flatten_tokens tokens) m rs)"
proof -
  let ?xs = "filter (\<lambda>t. t \<notin> set (unk_token # rs))
       (map fst (takeWhile (\<lambda>p. \<not> snd p < m) (token_freqs (Vocab_init tokens m reserved))))"
  let ?ys = "new_frequent_tokens (flatten_tokens tokens) m rs"
  have "distinct ?xs" using distinct_ranked by (rule distinct_filter)
  moreover have "distinct ?ys"
    unfolding new_frequent_tokens_def using distinct_frequent_tokens by (rule distinct_filter)
  moreover have "set ?xs = set ?ys"
    unfolding new_frequent_tokens_def set_filter set_ranked set_frequent_tokens ..
  ultimately show ?thesis
    by (metis distinct_card)
qed

lemma length_frequent_tokens:
  "length (frequent_tokens toks m) = card {t \<in> set toks. m \<le> freq toks t}"
  using distinct_card[OF distinct_frequent_tokens[of toks m]] by (simp add: set_frequent_tokens)

lemma length_new_frequent_tokens:
  "length (new_frequent_tokens toks m rs) =
     card {t \<in> set toks. m \<le> freq toks t \<and> t \<noteq> unk_token \<and> t \<notin> set rs}"
proof -
  have d: "distinct (new_frequent_tokens toks m rs)"
    unfolding new_frequent_tokens_def using distinct_frequent_tokens by (rule distinct_filter)
  have "set (new_frequent_tokens toks m rs) =
      {t \<in> set toks. m \<le> freq toks t \<and> t \<noteq> unk_token \<and> t \<notin> set rs}"
    by (auto simp: new_frequent_tokens_def set_frequent_tokens)
  then show ?thesis
    using distinct_card[OF d] by simp
qed

lemma set_idx_to_token:
  "set (idx_to_token (Vocab_init tokens m reserved)) =
     set (unk_token # reserved_list reserved) \<union>
     {t \<in> set (flatten_tokens tokens). m \<le> freq (flatten_tokens tokens) t}"
proof -
  have "set (idx_to_token (Vocab_init tokens m reserved)) =
     set (unk_token # reserved_list reserved) \<union>
     set (filter (\<lambda>t. t \<notin> set (unk_token # reserved_list reserved))
       (map fst (takeWhile (\<lambda>p. \<not> snd p < m) (token_freqs (Vocab_init tokens m reserved)))))"
    by (subst idx_to_token_Vocab_init) simp
  then show ?thesis
    unfolding set_filter set_ranked by blast
qed

lemma token_to_idx_present:
  assumes "t \<in> set (idx_to_token (Vocab_init tokens m reserved))"
  shows "\<exists>i. token_to_idx (Vocab_init tokens m reserved) t = Some i \<and> 0 \<le> i \<and>
     i < int (length (idx_to_token (Vocab_init tokens m reserved))) \<and>
     idx_to_token (Vocab_init tokens m reserved) ! nat i = t"
proof -
  have inv: "vocab_inv (idx_to_token (Vocab_init tokens m reserved)) (token_to_idx (Vocab_init tokens m reserved))"
    by (rule vocab_inv_Vocab_init)
  then have "t \<in> dom (token_to_idx (Vocab_init tokens m reserved))"
    using assms by (simp add: vocab_inv_def)
  then obtain i where "token_to_idx (Vocab_init tokens m reserved) t = Some i"
    by auto
  then show ?thesis
    using inv by (simp add: vocab_inv_def)
qed

lemma token_to_idx_absent:
  assumes "t \<notin> set (idx_to_token (Vocab_init tokens m reserved))"
  shows "token_to_idx (Vocab_init tokens m reserved) t = None"
proof -
  have "vocab_inv (idx_to_token (Vocab_init tokens m reserved)) (token_to_idx (Vocab_init tokens m reserved))"
    by (rule vocab_inv_Vocab_init)
  then have "t \<notin> dom (token_to_idx (Vocab_init tokens m reserved))"
    using assms by (simp add: vocab_inv_def)
  then show ?thesis by auto
qed

lemma list_getitem_in_range:
  "0 \<le> i \<Longrightarrow> i < int (length xs) \<Longrightarrow> list_getitem xs i = Inr (xs ! nat i)"
  by (simp add: list_getitem_def)

lemma list_getitem_negative:
  "- int (length xs) \<le> i \<Longrightarrow> i < 0 \<Longrightarrow> list_getitem xs i = Inr (xs ! nat (i + int (length xs)))"
  by (simp add: list_getitem_def)

lemma list_getitem_out_of_range:
  "i < - int (length xs) \<or> int (length xs) \<le> i \<Longrightarrow> list_getitem xs i = Inl IndexError"
  by (auto simp: list_getitem_def)

subsection \<open>Loading the corpus\<close>

lemma concat_list_of_str: "concat (map list_of_str lines) = map (\<lambda>c. [c]) (concat lines)"
  by (induction lines) (simp_all add: list_of_str_def)

lemma tokenize_char: "tokenize lines (ascii ''char'') = ([], Some (map list_of_str lines))"
proof -
  have "ascii ''char'' \<noteq> ascii ''word''"
    by (simp add: ascii_def)
  then show ?thesis by (simp add: tokenize_def)
qed

lemma load_corpus_time_machine_unfold:
  "load_corpus_time_machine raw max_tokens =
     Inr (if max_tokens > 0
          then take (nat max_tokens)
            (map (getitem_token (Vocab_init (Some (Tokens2D (map list_of_str (read_time_machine raw)))) 0 None))
              (concat (map list_of_str (read_time_machine raw))))
          else map (getitem_token (Vocab_init (Some (Tokens2D (map list_of_str (read_time_machine raw)))) 0 None))
              (concat (map list_of_str (read_time_machine raw))),
          Vocab_init (Some (Tokens2D (map list_of_str (read_time_machine raw)))) 0 None)"
  by (simp add: load_corpus_time_machine_def tokenize_char Let_def)

section \<open>The claims\<close>

subsection \<open>C1: the size of the vocabulary\<close>

text \<open>
  C1, as the code has it. The size of the constructed vocabulary is 1 (the unknown marker)
  plus the number of reserved tokens plus the number of distinct tokens of the collection
  whose frequency is at least \<open>min_freq\<close> and that are neither the unknown marker nor a
  reserved token: the loop adds a token only when it is not yet in \<^verbatim>\<open>token_to_idx\<close>.
  The second part says that the list \<open>new_frequent_tokens\<close> has one entry for each such
  token.
\<close>

theorem C1_vocab_size:
  "Vocab_len (Vocab_init tokens min_freq reserved) =
     1 + length (reserved_list reserved) +
     length (new_frequent_tokens (flatten_tokens tokens) min_freq (reserved_list reserved)) \<and>
   length (new_frequent_tokens (flatten_tokens tokens) min_freq (reserved_list reserved)) =
     card {t \<in> set (flatten_tokens tokens). min_freq \<le> freq (flatten_tokens tokens) t \<and>
             t \<noteq> unk_token \<and> t \<notin> set (reserved_list reserved)}"
proof -
  have "Vocab_len (Vocab_init tokens min_freq reserved) =
     1 + length (reserved_list reserved) +
     length (filter (\<lambda>t. t \<notin> set (unk_token # reserved_list reserved))
       (map fst (takeWhile (\<lambda>p. \<not> snd p < min_freq) (token_freqs (Vocab_init tokens min_freq reserved)))))"
    unfolding Vocab_len_def by (subst idx_to_token_Vocab_init) simp
  then show ?thesis
    by (simp only: length_new_ranked length_new_frequent_tokens simp_thms)
qed

text \<open>
  An instance: the lines \<^verbatim>\<open>[['a', 'b'], ['a', 'p']]\<close> with \<open>min_freq = 2\<close> and the reserved
  token \<^verbatim>\<open>'p'\<close> give the three entries \<^verbatim>\<open>'<unk>'\<close>, \<^verbatim>\<open>'p'\<close>, \<^verbatim>\<open>'a'\<close>.
\<close>

theorem C1_vocab_size_witness:
  "Vocab_len (Vocab_init (Some (Tokens2D [[ascii ''a'', ascii ''b''], [ascii ''a'', ascii ''p'']])) 2
     (Some [ascii ''p''])) = 3"
  using C1_vocab_size[THEN conjunct1, of "Some (Tokens2D [[ascii ''a'', ascii ''b''], [ascii ''a'', ascii ''p'']])" 2
      "Some [ascii ''p'']"]
  by (simp add: new_frequent_tokens_def frequent_tokens_def freq_def ascii_def unk_token_def)

text \<open>
  C1 as it is stated counts every distinct token of frequency at least \<open>min_freq\<close>. For
  the collection \<^verbatim>\<open>['<unk>']\<close> that count is 1 and the stated size is 2, while the
  vocabulary has the single entry \<^verbatim>\<open>'<unk>'\<close>.
\<close>

theorem C1_vocab_size_counterexample:
  "Vocab_len (Vocab_init (Some (Tokens1D [unk_token])) 0 None) \<noteq>
     1 + length (reserved_list None) +
     length (frequent_tokens (flatten_tokens (Some (Tokens1D [unk_token]))) 0)"
  by (simp add: Vocab_len_def Vocab_init_def Counter_def dict_of_enumerate_def
      frequent_tokens_def freq_def)

subsection \<open>C2: looking an index up\<close>

text \<open>
  C2, as the code has it. \<^verbatim>\<open>to_tokens\<close> indexes the Python list \<^verbatim>\<open>idx_to_token\<close> and makes
  no check of its own. With \<open>n\<close> the size of the vocabulary: an index below \<open>- n\<close> or at
  least \<open>n\<close> raises \<^verbatim>\<open>IndexError\<close> and no token is returned; an index from \<open>- n\<close> to \<open>-1\<close>
  returns the token at position \<open>i + n\<close>, counted from the end; an index from \<open>0\<close> to
  \<open>n - 1\<close> returns the token at that position.
\<close>

theorem C2_to_tokens_bounds:
  "(i < - int (Vocab_len (Vocab_init tokens min_freq reserved)) \<or>
    int (Vocab_len (Vocab_init tokens min_freq reserved)) \<le> i \<longrightarrow>
      Vocab_to_tokens (Vocab_init tokens min_freq reserved) (Index i) = Inl IndexError) \<and>
   (- int (Vocab_len (Vocab_init tokens min_freq reserved)) \<le> i \<and> i < 0 \<longrightarrow>
      Vocab_to_tokens (Vocab_init tokens min_freq reserved) (Index i) =
        Inr (Token (idx_to_token (Vocab_init tokens min_freq reserved) !
          nat (i + int (Vocab_len (Vocab_init tokens min_freq reserved)))))) \<and>
   (0 \<le> i \<and> i < int (Vocab_len (Vocab_init tokens min_freq reserved)) \<longrightarrow>
      Vocab_to_tokens (Vocab_init tokens min_freq reserved) (Index i) =
        Inr (Token (idx_to_token (Vocab_init tokens min_freq reserved) ! nat i)))"
  unfolding Vocab_len_def
  by (simp add: list_getitem_in_range list_getitem_negative list_getitem_out_of_range)

text \<open>
  An instance with the two entries \<^verbatim>\<open>'<unk>'\<close> and \<^verbatim>\<open>'a'\<close>: the indices \<open>2\<close> and \<open>-3\<close> raise,
  \<open>-2\<close> is the first entry and \<open>1\<close> the second.
\<close>

theorem C2_to_tokens_bounds_witness:
  "Vocab_to_tokens (Vocab_init (Some (Tokens1D [ascii ''a''])) 0 None) (Index 2) = Inl IndexError \<and>
   Vocab_to_tokens (Vocab_init (Some (Tokens1D [ascii ''a''])) 0 None) (Index (- 3)) = Inl IndexError \<and>
   Vocab_to_tokens (Vocab_init (Some (Tokens1D [ascii ''a''])) 0 None) (Index (- 2)) = Inr (Token unk_token) \<and>
   Vocab_to_tokens (Vocab_init (Some (Tokens1D [ascii ''a''])) 0 None) (Index 1) = Inr (Token (ascii ''a''))"
proof -
  have len: "Vocab_len (Vocab_init (Some (Tokens1D [ascii ''a''])) 0 None) = 2"
    and i2t: "idx_to_token (Vocab_init (Some (Tokens1D [ascii ''a''])) 0 None) = [unk_token, ascii ''a'']"
    by (simp_all add: Vocab_len_def Vocab_init_def Counter_def dict_of_enumerate_def ascii_def unk_token_def)
  show ?thesis
    using C2_to_tokens_bounds[of 2 "Some (Tokens1D [ascii ''a''])" 0 None]
      C2_to_tokens_bounds[of "- 3" "Some (Tokens1D [ascii ''a''])" 0 None]
      C2_to_tokens_bounds[of "- 2" "Some (Tokens1D [ascii ''a''])" 0 None]
      C2_to_tokens_bounds[of 1 "Some (Tokens1D [ascii ''a''])" 0 None]
    unfolding len i2t by simp
qed

text \<open>
  C2 as it is stated makes every negative index an error. In the vocabulary built from
  nothing, whose only index is \<open>0\<close>, the index \<open>-1\<close> returns \<^verbatim>\<open>'<unk>'\<close>.
\<close>

theorem C2_negative_index_counterexample:
  "\<not> (0 \<le> (- 1 :: int) \<and> (- 1 :: int) \<le> int (Vocab_len (Vocab_init None 0 None)) - 1) \<and>
   Vocab_to_tokens (Vocab_init None 0 None) (Index (- 1)) = Inr (Token unk_token)"
  by (simp add: Vocab_init_def Counter_def dict_of_enumerate_def list_getitem_def)

subsection \<open>C3: an unknown token type\<close>

text \<open>
  C3, as the code has it. For a token type other than \<^verbatim>\<open>'word'\<close> and \<^verbatim>\<open>'char'\<close>, \<^verbatim>\<open>tokenize\<close>
  prints one message, the source's text followed by the unknown type, and returns \<^verbatim>\<open>None\<close>:
  no token list comes back, whereas the two supported types return a token list on every
  input, so the result is not that of a default type. The call raises nothing: the
  message and the \<^verbatim>\<open>None\<close> result are all that the caller gets.
\<close>

theorem C3_unknown_mode:
  assumes "token \<noteq> ascii ''word''" and "token \<noteq> ascii ''char''"
  shows "fst (tokenize lines token) = [unknown_token_type_msg @ token] \<and>
         snd (tokenize lines token) = None \<and>
         snd (tokenize other_lines (ascii ''word'')) \<noteq> None \<and>
         snd (tokenize other_lines (ascii ''char'')) \<noteq> None"
  using assms by (simp add: tokenize_def)

text \<open>An instance: the type \<^verbatim>\<open>'line'\<close>, against what \<^verbatim>\<open>'word'\<close> returns on the same line.\<close>

theorem C3_unknown_mode_witness:
  "tokenize [ascii ''a b''] (ascii ''line'') = ([unknown_token_type_msg @ ascii ''line''], None) \<and>
   tokenize [ascii ''a b''] (ascii ''word'') = ([], Some [[ascii ''a'', ascii ''b'']])"
proof -
  have a: "ascii ''line'' \<noteq> ascii ''word''" and b: "ascii ''line'' \<noteq> ascii ''char''"
    by (simp_all add: ascii_def)
  have "tokenize [ascii ''a b''] (ascii ''word'') = ([], Some [[ascii ''a'', ascii ''b'']])"
    by (simp add: tokenize_def split_def isspace_def ascii_def)
  then show ?thesis
    using C3_unknown_mode[OF a b, of "[ascii ''a b'']"]
    by (simp add: prod_eq_iff)
qed

text \<open>
  C3 as it is stated has the failure surfaced to the caller and not silently ignored. The
  call with the type \<^verbatim>\<open>'line'\<close> returns as every call does, with the value \<^verbatim>\<open>None\<close>, and a
  caller that goes on as the loader does, with \<^verbatim>\<open>Vocab(tokens)\<close>, gets the vocabulary of
  omitted tokens, \<^verbatim>\<open>['<unk>']\<close>, and no error: \<^verbatim>\<open>None\<close> is what \<^verbatim>\<open>Vocab\<close> takes for tokens
  left out.
\<close>

theorem C3_unknown_mode_counterexample:
  "snd (tokenize [ascii ''a b''] (ascii ''line'')) = None \<and>
   Vocab_init (map_option Tokens2D (snd (tokenize [ascii ''a b''] (ascii ''line'')))) 0 None =
     Vocab_init None 0 None \<and>
   idx_to_token (Vocab_init (map_option Tokens2D (snd (tokenize [ascii ''a b''] (ascii ''line'')))) 0 None) =
     [unk_token]"
proof -
  have "snd (tokenize [ascii ''a b''] (ascii ''line'')) = None"
    by (simp add: tokenize_def ascii_def)
  moreover have "idx_to_token (Vocab_init None 0 None) = [unk_token]"
    by (simp add: Vocab_init_def Counter_def dict_of_enumerate_def)
  ultimately show ?thesis by simp
qed

subsection \<open>C4: looking a token up\<close>

text \<open>
  C4. In every constructed vocabulary the lookup of one token returns an index and has no
  failing case: for a token of \<^verbatim>\<open>idx_to_token\<close> it is a valid position at which the list
  holds that token, and for a token that is not in the vocabulary it is the unknown index
  0. The tokens absent from the vocabulary are those that are neither the unknown marker
  nor reserved and that are not in the collection or have a frequency below \<open>min_freq\<close>.
\<close>

theorem C4_getitem_total:
  "(t \<in> set (idx_to_token (Vocab_init tokens min_freq reserved)) \<longrightarrow>
      (\<exists>i. Vocab_getitem (Vocab_init tokens min_freq reserved) (Tok t) = Idx i \<and>
           0 \<le> i \<and> i < int (Vocab_len (Vocab_init tokens min_freq reserved)) \<and>
           idx_to_token (Vocab_init tokens min_freq reserved) ! nat i = t)) \<and>
   (t \<notin> set (idx_to_token (Vocab_init tokens min_freq reserved)) \<longrightarrow>
      Vocab_getitem (Vocab_init tokens min_freq reserved) (Tok t) = Idx 0) \<and>
   (t \<notin> set (idx_to_token (Vocab_init tokens min_freq reserved)) \<longleftrightarrow>
      t \<notin> set (unk_token # reserved_list reserved) \<and>
      (t \<notin> set (flatten_tokens tokens) \<or> freq (flatten_tokens tokens) t < min_freq))"
proof (intro conjI impI)
  assume "t \<in> set (idx_to_token (Vocab_init tokens min_freq reserved))"
  from token_to_idx_present[OF this]
  show "\<exists>i. Vocab_getitem (Vocab_init tokens min_freq reserved) (Tok t) = Idx i \<and>
           0 \<le> i \<and> i < int (Vocab_len (Vocab_init tokens min_freq reserved)) \<and>
           idx_to_token (Vocab_init tokens min_freq reserved) ! nat i = t"
    by (auto simp: getitem_token_def Vocab_len_def)
next
  assume "t \<notin> set (idx_to_token (Vocab_init tokens min_freq reserved))"
  from token_to_idx_absent[OF this]
  show "Vocab_getitem (Vocab_init tokens min_freq reserved) (Tok t) = Idx 0"
    by (simp add: getitem_token_def Vocab_unk_def)
next
  show "t \<notin> set (idx_to_token (Vocab_init tokens min_freq reserved)) \<longleftrightarrow>
      t \<notin> set (unk_token # reserved_list reserved) \<and>
      (t \<notin> set (flatten_tokens tokens) \<or> freq (flatten_tokens tokens) t < min_freq)"
    unfolding set_idx_to_token by auto
qed

text \<open>
  An instance: \<^verbatim>\<open>['a', 'b', 'a']\<close> with \<open>min_freq = 2\<close> and the reserved token \<^verbatim>\<open>'p'\<close>;
  \<^verbatim>\<open>'a'\<close> is in the vocabulary, \<^verbatim>\<open>'b'\<close> is below the threshold, \<^verbatim>\<open>'z'\<close> is not in the collection.
\<close>

theorem C4_getitem_total_witness:
  "(\<exists>i. Vocab_getitem (Vocab_init (Some (Tokens1D [ascii ''a'', ascii ''b'', ascii ''a''])) 2 (Some [ascii ''p'']))
          (Tok (ascii ''a'')) = Idx i \<and> 0 \<le> i \<and> i < 3 \<and> [unk_token, ascii ''p'', ascii ''a''] ! nat i = ascii ''a'') \<and>
   Vocab_getitem (Vocab_init (Some (Tokens1D [ascii ''a'', ascii ''b'', ascii ''a''])) 2 (Some [ascii ''p'']))
     (Tok (ascii ''b'')) = Idx 0 \<and>
   Vocab_getitem (Vocab_init (Some (Tokens1D [ascii ''a'', ascii ''b'', ascii ''a''])) 2 (Some [ascii ''p'']))
     (Tok (ascii ''z'')) = Idx 0"
proof -
  have i2t: "idx_to_token (Vocab_init (Some (Tokens1D [ascii ''a'', ascii ''b'', ascii ''a''])) 2 (Some [ascii ''p''])) =
      [unk_token, ascii ''p'', ascii ''a'']"
    by (simp add: Vocab_init_def Counter_def dict_of_enumerate_def ascii_def unk_token_def)
  have len: "int (Vocab_len (Vocab_init (Some (Tokens1D [ascii ''a'', ascii ''b'', ascii ''a''])) 2 (Some [ascii ''p'']))) = 3"
    by (simp add: Vocab_len_def i2t)
  have a: "ascii ''a'' \<in> set [unk_token, ascii ''p'', ascii ''a'']"
    and b: "ascii ''b'' \<notin> set [unk_token, ascii ''p'', ascii ''a'']"
    and z: "ascii ''z'' \<notin> set [unk_token, ascii ''p'', ascii ''a'']"
    by (simp_all add: ascii_def unk_token_def)
  show ?thesis
    using C4_getitem_total[of "ascii ''a''" "Some (Tokens1D [ascii ''a'', ascii ''b'', ascii ''a''])" 2 "Some [ascii ''p'']"]
      C4_getitem_total[of "ascii ''b''" "Some (Tokens1D [ascii ''a'', ascii ''b'', ascii ''a''])" 2 "Some [ascii ''p'']"]
      C4_getitem_total[of "ascii ''z''" "Some (Tokens1D [ascii ''a'', ascii ''b'', ascii ''a''])" 2 "Some [ascii ''p'']"]
    unfolding i2t len using a b z by blast
qed

subsection \<open>C5: from a token to its index and back\<close>

text \<open>
  C5. For a token that occurs in the collection with a frequency of at least \<open>min_freq\<close>,
  the lookup of the token returns an index within the vocabulary, and the lookup of that
  index returns the token.
\<close>

theorem C5_round_trip:
  assumes "t \<in> set (flatten_tokens tokens)" and "min_freq \<le> freq (flatten_tokens tokens) t"
  shows "\<exists>i. Vocab_getitem (Vocab_init tokens min_freq reserved) (Tok t) = Idx i \<and>
           0 \<le> i \<and> i < int (Vocab_len (Vocab_init tokens min_freq reserved)) \<and>
           Vocab_to_tokens (Vocab_init tokens min_freq reserved) (Index i) = Inr (Token t)"
proof -
  have "t \<in> set (idx_to_token (Vocab_init tokens min_freq reserved))"
    unfolding set_idx_to_token using assms by simp
  from token_to_idx_present[OF this]
  obtain i where i: "token_to_idx (Vocab_init tokens min_freq reserved) t = Some i" "0 \<le> i"
    "i < int (length (idx_to_token (Vocab_init tokens min_freq reserved)))"
    "idx_to_token (Vocab_init tokens min_freq reserved) ! nat i = t"
    by blast
  have "Vocab_getitem (Vocab_init tokens min_freq reserved) (Tok t) = Idx i"
    using i(1) by (simp add: getitem_token_def)
  moreover have "Vocab_to_tokens (Vocab_init tokens min_freq reserved) (Index i) = Inr (Token t)"
    using i(2,3,4) by (simp add: list_getitem_in_range)
  ultimately show ?thesis
    using i(2,3) by (simp add: Vocab_len_def)
qed

text \<open>An instance in which the token is also a reserved token.\<close>

theorem C5_round_trip_witness:
  "\<exists>i. Vocab_getitem (Vocab_init (Some (Tokens1D [ascii ''a'', ascii ''b'', ascii ''a''])) 2 (Some [ascii ''a''])) (Tok (ascii ''a'')) = Idx i \<and>
     Vocab_to_tokens (Vocab_init (Some (Tokens1D [ascii ''a'', ascii ''b'', ascii ''a''])) 2 (Some [ascii ''a''])) (Index i) = Inr (Token (ascii ''a''))"
proof -
  have a: "ascii ''a'' \<in> set (flatten_tokens (Some (Tokens1D [ascii ''a'', ascii ''b'', ascii ''a''])))"
    by simp
  have b: "2 \<le> freq (flatten_tokens (Some (Tokens1D [ascii ''a'', ascii ''b'', ascii ''a'']))) (ascii ''a'')"
    by (simp add: freq_def ascii_def)
  show ?thesis
    using C5_round_trip[OF a b, of "Some [ascii ''a'']"] by blast
qed

subsection \<open>C6: the order of assignment\<close>

text \<open>
  C6, as the code has it. \<^verbatim>\<open>idx_to_token\<close> is the unknown marker, then the reserved tokens
  in the caller's order, then the tokens of the frequency list up to its first entry
  below \<open>min_freq\<close>, leaving out those that are the unknown marker or a reserved token.
  The frequency list holds every distinct token of the collection once, with its
  frequency, in descending order of frequency, so stopping at the first entry below
  \<open>min_freq\<close> leaves out exactly the entries below \<open>min_freq\<close>. Building from
  \<^verbatim>\<open>['a', 'b', 'a', 'c', 'a', 'b']\<close> with \<open>min_freq = 0\<close> and no reserved tokens gives
  \<^verbatim>\<open>['<unk>', 'a', 'b', 'c']\<close>, and \<^verbatim>\<open>'a'\<close> has the index 1.
\<close>

theorem C6_assignment_order:
  "idx_to_token (Vocab_init tokens min_freq reserved) =
     unk_token # reserved_list reserved @
     filter (\<lambda>t. t \<notin> set (unk_token # reserved_list reserved))
       (ranked_tokens (token_freqs (Vocab_init tokens min_freq reserved)) min_freq) \<and>
   takeWhile (\<lambda>p. \<not> snd p < min_freq) (token_freqs (Vocab_init tokens min_freq reserved)) =
     filter (\<lambda>p. \<not> snd p < min_freq) (token_freqs (Vocab_init tokens min_freq reserved)) \<and>
   sorted_wrt (\<lambda>p q. snd q \<le> snd p) (token_freqs (Vocab_init tokens min_freq reserved)) \<and>
   distinct (map fst (token_freqs (Vocab_init tokens min_freq reserved))) \<and>
   set (token_freqs (Vocab_init tokens min_freq reserved)) =
     (\<lambda>t. (t, freq (flatten_tokens tokens) t)) ` set (flatten_tokens tokens) \<and>
   idx_to_token (Vocab_init (Some (Tokens1D (map ascii [''a'', ''b'', ''a'', ''c'', ''a'', ''b'']))) 0 None) =
     map ascii [''<unk>'', ''a'', ''b'', ''c''] \<and>
   token_to_idx (Vocab_init (Some (Tokens1D (map ascii [''a'', ''b'', ''a'', ''c'', ''a'', ''b'']))) 0 None)
     (ascii ''a'') = Some 1"
proof (intro conjI)
  show "idx_to_token (Vocab_init tokens min_freq reserved) =
     unk_token # reserved_list reserved @
     filter (\<lambda>t. t \<notin> set (unk_token # reserved_list reserved))
       (ranked_tokens (token_freqs (Vocab_init tokens min_freq reserved)) min_freq)"
    unfolding ranked_tokens_def by (rule idx_to_token_Vocab_init)
  show "takeWhile (\<lambda>p. \<not> snd p < min_freq) (token_freqs (Vocab_init tokens min_freq reserved)) =
     filter (\<lambda>p. \<not> snd p < min_freq) (token_freqs (Vocab_init tokens min_freq reserved))"
    by (rule takeWhile_filter_desc[OF sorted_token_freqs])
  show "sorted_wrt (\<lambda>p q. snd q \<le> snd p) (token_freqs (Vocab_init tokens min_freq reserved))"
    by (rule sorted_wrt_desc[OF sorted_token_freqs])
  show "distinct (map fst (token_freqs (Vocab_init tokens min_freq reserved)))"
    by (rule distinct_token_freqs)
  show "set (token_freqs (Vocab_init tokens min_freq reserved)) =
     (\<lambda>t. (t, freq (flatten_tokens tokens) t)) ` set (flatten_tokens tokens)"
    using in_token_freqs_iff[of _ _ tokens min_freq reserved] by (auto simp: image_iff)
  show "idx_to_token (Vocab_init (Some (Tokens1D (map ascii [''a'', ''b'', ''a'', ''c'', ''a'', ''b'']))) 0 None) =
     map ascii [''<unk>'', ''a'', ''b'', ''c'']"
    by (simp add: Vocab_init_def Counter_def dict_of_enumerate_def ascii_def unk_token_def)
  show "token_to_idx (Vocab_init (Some (Tokens1D (map ascii [''a'', ''b'', ''a'', ''c'', ''a'', ''b'']))) 0 None)
     (ascii ''a'') = Some 1"
    by (simp add: Vocab_init_def Counter_def dict_of_enumerate_def ascii_def unk_token_def)
qed

text \<open>
  An instance with a threshold and a reserved token that is also in the collection:
  \<^verbatim>\<open>'b'\<close> and \<^verbatim>\<open>'c'\<close> are below the threshold, \<^verbatim>\<open>'p'\<close> keeps its reserved position.
\<close>

theorem C6_assignment_order_witness:
  "idx_to_token (Vocab_init (Some (Tokens1D (map ascii [''b'', ''a'', ''p'', ''c'', ''a'', ''p'', ''a'']))) 2
      (Some [ascii ''p''])) = map ascii [''<unk>'', ''p'', ''a'']"
proof -
  have "token_freqs (Vocab_init (Some (Tokens1D (map ascii [''b'', ''a'', ''p'', ''c'', ''a'', ''p'', ''a'']))) 2
      (Some [ascii ''p''])) = [(ascii ''a'', 3), (ascii ''p'', 2), (ascii ''b'', 1), (ascii ''c'', 1)]"
    by (simp add: token_freqs_Vocab_init Counter_def ascii_def)
  then show ?thesis
    using C6_assignment_order[of "Some (Tokens1D (map ascii [''b'', ''a'', ''p'', ''c'', ''a'', ''p'', ''a'']))" 2
        "Some [ascii ''p'']"]
    by (simp add: ranked_tokens_def ascii_def unk_token_def)
qed

text \<open>
  C6 as it is stated puts every token of frequency at least \<open>min_freq\<close> after the
  reserved tokens. For the collection \<^verbatim>\<open>['a']\<close> with the reserved token \<^verbatim>\<open>'a'\<close> that list
  would be \<^verbatim>\<open>['<unk>', 'a', 'a']\<close>; the vocabulary is \<^verbatim>\<open>['<unk>', 'a']\<close>.
\<close>

theorem C6_assignment_order_counterexample:
  "idx_to_token (Vocab_init (Some (Tokens1D [ascii ''a''])) 0 (Some [ascii ''a''])) \<noteq>
     unk_token # reserved_list (Some [ascii ''a'']) @
     ranked_tokens (token_freqs (Vocab_init (Some (Tokens1D [ascii ''a''])) 0 (Some [ascii ''a'']))) 0"
  by (simp add: Vocab_init_def Counter_def dict_of_enumerate_def ranked_tokens_def)

subsection \<open>C7: the two mappings are inverse\<close>

text \<open>
  C7, as the code has it. When the reserved tokens are pairwise distinct and none of them
  is the unknown marker, the entries of \<^verbatim>\<open>idx_to_token\<close> are pairwise distinct, and
  \<^verbatim>\<open>token_to_idx\<close> maps the token at each position back to that position and has no other
  keys.
\<close>

theorem C7_exact_inverse:
  assumes "distinct (unk_token # reserved_list reserved)"
  shows "distinct (idx_to_token (Vocab_init tokens min_freq reserved)) \<and>
         (\<forall>i < length (idx_to_token (Vocab_init tokens min_freq reserved)).
            token_to_idx (Vocab_init tokens min_freq reserved)
              (idx_to_token (Vocab_init tokens min_freq reserved) ! i) = Some (int i)) \<and>
         dom (token_to_idx (Vocab_init tokens min_freq reserved)) =
           set (idx_to_token (Vocab_init tokens min_freq reserved))"
proof -
  have "distinct (unk_token # reserved_list reserved @
     filter (\<lambda>t. t \<notin> set (unk_token # reserved_list reserved))
       (map fst (takeWhile (\<lambda>p. \<not> snd p < min_freq) (token_freqs (Vocab_init tokens min_freq reserved)))))"
    using assms distinct_filter[OF distinct_ranked[of min_freq tokens reserved],
        of "\<lambda>t. t \<notin> set (unk_token # reserved_list reserved)"]
    by auto
  then have d: "distinct (idx_to_token (Vocab_init tokens min_freq reserved))"
    by (simp only: idx_to_token_Vocab_init[symmetric])
  have inv: "vocab_inv (idx_to_token (Vocab_init tokens min_freq reserved))
      (token_to_idx (Vocab_init tokens min_freq reserved))"
    by (rule vocab_inv_Vocab_init)
  show ?thesis
    using d vocab_inv_inverse[OF inv d] inv by (simp add: vocab_inv_def)
qed

text \<open>An instance: the reserved token \<^verbatim>\<open>'p'\<close>, which is also in the collection.\<close>

theorem C7_exact_inverse_witness:
  "distinct (idx_to_token (Vocab_init (Some (Tokens1D [ascii ''a'', ascii ''p''])) 0 (Some [ascii ''p'']))) \<and>
   token_to_idx (Vocab_init (Some (Tokens1D [ascii ''a'', ascii ''p''])) 0 (Some [ascii ''p''])) (ascii ''a'') = Some 2"
proof -
  have d: "distinct (unk_token # reserved_list (Some [ascii ''p'']))"
    by (simp add: unk_token_def ascii_def)
  have i2t: "idx_to_token (Vocab_init (Some (Tokens1D [ascii ''a'', ascii ''p''])) 0 (Some [ascii ''p''])) =
      [unk_token, ascii ''p'', ascii ''a'']"
    by (simp add: Vocab_init_def Counter_def dict_of_enumerate_def ascii_def unk_token_def)
  show ?thesis
    using C7_exact_inverse[OF d, of "Some (Tokens1D [ascii ''a'', ascii ''p''])" 0]
    unfolding i2t by (auto dest: spec[of _ 2])
qed

text \<open>
  C7 as it is stated holds for every constructed vocabulary. With the reserved token
  \<^verbatim>\<open>'<unk>'\<close> the list is \<^verbatim>\<open>['<unk>', '<unk>']\<close>, and the token at position 0 is mapped to 1.
\<close>

theorem C7_exact_inverse_counterexample:
  "\<not> distinct (idx_to_token (Vocab_init None 0 (Some [unk_token]))) \<and>
   0 < length (idx_to_token (Vocab_init None 0 (Some [unk_token]))) \<and>
   token_to_idx (Vocab_init None 0 (Some [unk_token]))
     (idx_to_token (Vocab_init None 0 (Some [unk_token])) ! 0) \<noteq> Some 0"
  by (simp add: Vocab_init_def Counter_def dict_of_enumerate_def)

subsection \<open>C8: the bound on the corpus\<close>

text \<open>
  C8. On every list of lines the loader returns a corpus and a vocabulary. The vocabulary
  is the one built from the character tokens of all normalised lines, whatever
  \<open>max_tokens\<close> is. With the default \<open>max_tokens = -1\<close> the corpus is the full index
  sequence, one index for each character of the normalised lines; with \<open>max_tokens > 0\<close>
  it is the first \<open>max_tokens\<close> entries of the full sequence, of length
  \<open>min max_tokens (length full)\<close>; with \<open>max_tokens \<le> 0\<close> it is the full sequence.
\<close>

theorem C8_max_tokens:
  "\<exists>full V.
     load_corpus_time_machine raw (- 1) = Inr (full, V) \<and>
     V = Vocab_init (Some (Tokens2D (map list_of_str (read_time_machine raw)))) 0 None \<and>
     full = map (\<lambda>c. getitem_token V [c]) (concat (read_time_machine raw)) \<and>
     (0 < max_tokens \<longrightarrow>
        load_corpus_time_machine raw max_tokens = Inr (take (nat max_tokens) full, V) \<and>
        length (take (nat max_tokens) full) = min (nat max_tokens) (length full)) \<and>
     (max_tokens \<le> 0 \<longrightarrow> load_corpus_time_machine raw max_tokens = Inr (full, V))"
  by (simp add: load_corpus_time_machine_unfold concat_list_of_str comp_def min.commute)

text \<open>
  An instance: the lines \<^verbatim>\<open>'Ab, c'\<close> and \<^verbatim>\<open>'B!'\<close> are normalised to \<^verbatim>\<open>'ab c'\<close> and \<^verbatim>\<open>'b'\<close>, five
  characters, with the bounds 3, 9 and 0.
\<close>

theorem C8_max_tokens_witness:
  "map_sum id fst (load_corpus_time_machine [ascii ''Ab, c'', ascii ''B!''] 3) = Inr [2, 1, 3] \<and>
   map_sum id fst (load_corpus_time_machine [ascii ''Ab, c'', ascii ''B!''] 9) = Inr [2, 1, 3, 4, 1] \<and>
   map_sum id fst (load_corpus_time_machine [ascii ''Ab, c'', ascii ''B!''] 0) = Inr [2, 1, 3, 4, 1]"
proof -
  have r: "read_time_machine [ascii ''Ab, c'', ascii ''B!''] = [ascii ''ab c'', ascii ''b'']"
    by (simp add: read_time_machine_def ascii_def is_letter_def strip_def isspace_def lower_def)
  have "map_sum id fst (load_corpus_time_machine [ascii ''Ab, c'', ascii ''B!''] (- 1)) = Inr [2, 1, 3, 4, 1]"
    unfolding load_corpus_time_machine_unfold r
    by (simp add: Vocab_init_def Counter_def dict_of_enumerate_def getitem_token_def list_of_str_def
        ascii_def unk_token_def)
  then show ?thesis
    using C8_max_tokens[of "[ascii ''Ab, c'', ascii ''B!'']" 3]
      C8_max_tokens[of "[ascii ''Ab, c'', ascii ''B!'']" 9]
      C8_max_tokens[of "[ascii ''Ab, c'', ascii ''B!'']" 0]
    by auto
qed

subsection \<open>C9: characters as tokens\<close>

text \<open>
  C9. With the type \<^verbatim>\<open>'char'\<close>, \<^verbatim>\<open>tokenize\<close> prints nothing and returns one token list for
  each line: it has as many tokens as the line has characters, every token is one
  character, and the tokens joined give the line back, spaces included.
\<close>

theorem C9_char_mode:
  "\<exists>toks. tokenize lines (ascii ''char'') = ([], Some toks) \<and>
     map length toks = map length lines \<and>
     map concat toks = lines \<and>
     (\<forall>ts \<in> set toks. \<forall>t \<in> set ts. length t = 1)"
proof -
  have "ascii ''char'' \<noteq> ascii ''word''"
    by (simp add: ascii_def)
  then have "tokenize lines (ascii ''char'') = ([], Some (map list_of_str lines))"
    by (simp add: tokenize_def)
  moreover have "map length (map list_of_str lines) = map length lines"
    by (simp add: list_of_str_def)
  moreover have "concat (list_of_str line) = line" for line
    by (induction line) (simp_all add: list_of_str_def)
  then have "map concat (map list_of_str lines) = lines"
    by (simp add: map_idI)
  moreover have "\<forall>ts \<in> set (map list_of_str lines). \<forall>t \<in> set ts. length t = 1"
    by (auto simp: list_of_str_def)
  ultimately show ?thesis by blast
qed

text \<open>An instance: a line with a space in it, and an empty line.\<close>

theorem C9_char_mode_witness:
  "\<exists>toks. tokenize [ascii ''a b'', []] (ascii ''char'') = ([], Some toks) \<and>
     map length toks = [3, 0] \<and> map concat toks = [ascii ''a b'', []]"
  using C9_char_mode[of "[ascii ''a b'', []]"] by (auto simp: ascii_def eval_nat_numeral)

subsection \<open>C10: the vocabulary of no tokens\<close>

text \<open>
  C10. With \<^verbatim>\<open>tokens\<close> left out or an empty list, and \<^verbatim>\<open>reserved_tokens\<close> left out or
  empty, the vocabulary is exactly \<^verbatim>\<open>['<unk>']\<close>, its size is 1, and the lookup of every
  token returns 0, whatever \<open>min_freq\<close> is.
\<close>

theorem C10_empty_vocab:
  assumes "tokens \<in> {None, Some (Tokens1D []), Some (Tokens2D [])}" and "reserved \<in> {None, Some []}"
  shows "idx_to_token (Vocab_init tokens min_freq reserved) = [unk_token] \<and>
         Vocab_len (Vocab_init tokens min_freq reserved) = 1 \<and>
         Vocab_getitem (Vocab_init tokens min_freq reserved) (Tok t) = Idx 0"
proof -
  have f: "flatten_tokens tokens = []" and r: "reserved_list reserved = []"
    using assms by auto
  have i2t: "idx_to_token (Vocab_init tokens min_freq reserved) = [unk_token]"
    by (simp add: Vocab_init_unfold f r Counter_def)
  have "token_to_idx (Vocab_init tokens min_freq reserved) = [unk_token \<mapsto> 0]"
    by (simp add: Vocab_init_unfold f r Counter_def dict_of_enumerate_def)
  then have "getitem_token (Vocab_init tokens min_freq reserved) t = 0"
    by (simp add: getitem_token_def Vocab_unk_def)
  then show ?thesis
    using i2t by (simp add: Vocab_len_def)
qed

text \<open>Instances for each form of the arguments; the last looks a list of tokens up.\<close>

theorem C10_empty_vocab_witness:
  "idx_to_token (Vocab_init None 0 None) = [unk_token] \<and>
   Vocab_len (Vocab_init (Some (Tokens1D [])) 0 (Some [])) = 1 \<and>
   Vocab_getitem (Vocab_init (Some (Tokens2D [])) 3 None) (Toks [Tok unk_token, Tok (ascii ''a'')]) = Idxs [Idx 0, Idx 0]"
  using C10_empty_vocab[of None None 0] C10_empty_vocab[of "Some (Tokens1D [])" "Some []" 0]
    C10_empty_vocab[of "Some (Tokens2D [])" None 3 unk_token]
    C10_empty_vocab[of "Some (Tokens2D [])" None 3 "ascii ''a''"]
  by simp

end
